theory Spec2Isabelle
  imports Main "HOL-Library.AList"
begin

section \<open>Python dictionaries as ordered association lists\<close>

text \<open>
  A Python \<open>dict\<close> keeps its keys in insertion order, and \<open>Deck.import_deck\<close> and
  \<open>Deck.get_hardest_cards\<close> iterate over dictionaries, so a dictionary is modelled as an
  association list in iteration order:
  \<^item> \<open>k in d\<close> is \<open>k \<in> fst ` set d\<close>;
  \<^item> \<open>d[k]\<close> is \<open>map_of d k\<close>, where \<open>None\<close> stands for the \<open>KeyError\<close> of a missing key;
  \<^item> \<open>d[k] = v\<close> is \<open>AList.update k v d\<close>: an existing key keeps its position and gets the
    new value, a new key is appended;
  \<^item> \<open>del d[k]\<close> is \<open>AList.delete k d\<close>, guarded by \<open>k in d\<close> where the source relies on the
    \<open>KeyError\<close>;
  \<^item> \<open>len(d)\<close> is \<open>length d\<close>, \<open>d.items()\<close> is the list itself.
\<close>

type_synonym ('k, 'v) dict = "('k \<times> 'v) list"

text \<open>
  A dictionary comprehension \<open>{k: v for k, v in items}\<close> stores the items one after the
  other into an empty dictionary, so a key that occurs twice keeps its first position and
  its last value.
\<close>

definition dict_comp :: "('k \<times> 'v) list \<Rightarrow> ('k, 'v) dict" where
  "dict_comp items = fold (\<lambda>(k, v). AList.update k v) items []"

text \<open>\<open>dict.fromkeys(keys, v)\<close>\<close>

definition dict_fromkeys :: "'k list \<Rightarrow> 'v \<Rightarrow> ('k, 'v) dict" where
  "dict_fromkeys ks v = dict_comp (map (\<lambda>k. (k, v)) ks)"

text \<open>\<open>max(xs, default=dflt)\<close>\<close>

definition max_default :: "int list \<Rightarrow> int \<Rightarrow> int" where
  "max_default xs dflt = (case xs of [] \<Rightarrow> dflt | x # ys \<Rightarrow> fold max ys x)"


section \<open>Flashcards, decks and errors\<close>

text \<open>\<open>Flashcard = namedtuple("Flashcard", "term definition")\<close>\<close>

datatype flashcard = Flashcard (card_term: string) (card_definition: string)

text \<open>
  Every failure of a \<open>Deck\<close> method is a Python \<open>KeyError\<close>. \<open>DuplicateKey\<close> is the
  \<open>KeyError("Duplicate term or definition: ...")\<close> that \<open>insert_card\<close> raises;
  \<open>NotFound\<close> is the \<open>KeyError\<close> of a missing dictionary key (which \<open>get_by_term\<close>,
  \<open>get_by_definition\<close> and \<open>remove_card\<close> re-raise without its argument).
\<close>

datatype error = DuplicateKey | NotFound

record deck =
  term_to_definition :: "(string, string) dict"
  definition_to_term :: "(string, string) dict"
  term_to_mistakes :: "(string, int) dict"

text \<open>
  The snapshot that \<open>import_deck\<close> reads and \<open>export_deck\<close> writes: a dictionary from a
  term to the pair of its definition and its mistake count.
\<close>

type_synonym snapshot = "(string, string \<times> int) dict"

text \<open>\<open>Deck()\<close> without a snapshot.\<close>

definition empty_deck :: deck where
  "empty_deck = \<lparr>term_to_definition = [], definition_to_term = [], term_to_mistakes = []\<rparr>"


section \<open>The operations of \<open>Deck\<close>\<close>

text \<open>
  A method that mutates the deck returns its result together with the deck it leaves behind,
  also when it raises: what it changed before the exception stays changed.
\<close>

definition len :: "deck \<Rightarrow> nat" where
  "len d = length (term_to_definition d)"

definition get_by_term :: "string \<Rightarrow> deck \<Rightarrow> error + flashcard" where
  "get_by_term t d =
     (case map_of (term_to_definition d) t of
        None \<Rightarrow> Inl NotFound
      | Some df \<Rightarrow> Inr (Flashcard t df))"

definition get_by_definition :: "string \<Rightarrow> deck \<Rightarrow> error + flashcard" where
  "get_by_definition df d =
     (case map_of (definition_to_term d) df of
        None \<Rightarrow> Inl NotFound
      | Some t \<Rightarrow> Inr (Flashcard t df))"

definition get_all_cards :: "deck \<Rightarrow> flashcard list" where
  "get_all_cards d = map (\<lambda>(t, df). Flashcard t df) (term_to_definition d)"

definition insert_card :: "flashcard \<Rightarrow> deck \<Rightarrow> (error + unit) \<times> deck" where
  "insert_card c d =
     (if card_term c \<in> fst ` set (term_to_definition d)
         \<or> card_definition c \<in> fst ` set (definition_to_term d)
      then (Inl DuplicateKey, d)
      else (Inr (),
            d\<lparr>term_to_definition :=
                 AList.update (card_term c) (card_definition c) (term_to_definition d),
               definition_to_term :=
                 AList.update (card_definition c) (card_term c) (definition_to_term d),
               term_to_mistakes := AList.update (card_term c) 0 (term_to_mistakes d)\<rparr>))"

text \<open>
  The three \<open>del\<close> statements of \<open>remove_card\<close> run in turn inside one \<open>try\<close>; the first
  missing key raises, and the deletions before it are not undone.
\<close>

definition remove_card :: "flashcard \<Rightarrow> deck \<Rightarrow> (error + unit) \<times> deck" where
  "remove_card c d =
     (if card_term c \<notin> fst ` set (term_to_definition d) then (Inl NotFound, d)
      else
        let d1 = d\<lparr>term_to_definition := AList.delete (card_term c) (term_to_definition d)\<rparr>
        in if card_term c \<notin> fst ` set (term_to_mistakes d1) then (Inl NotFound, d1)
      else
        let d2 = d1\<lparr>term_to_mistakes := AList.delete (card_term c) (term_to_mistakes d1)\<rparr>
        in if card_definition c \<notin> fst ` set (definition_to_term d2) then (Inl NotFound, d2)
      else
        (Inr (),
         d2\<lparr>definition_to_term :=
              AList.delete (card_definition c) (definition_to_term d2)\<rparr>))"

text \<open>
  The state after lines 79 to 87 of \<open>import_deck\<close>: the three dictionaries rebuilt from the
  imported snapshot alone.
\<close>

definition imported_state :: "snapshot \<Rightarrow> deck" where
  "imported_state imported_deck =
     (let t2d = dict_comp (map (\<lambda>(t, (df, _)). (t, df)) imported_deck);
          t2m = dict_comp (map (\<lambda>(t, (_, stats)). (t, stats)) imported_deck)
      in \<lparr>term_to_definition = t2d,
          definition_to_term = dict_comp (map (\<lambda>(t, df). (df, t)) t2d),
          term_to_mistakes = t2m\<rparr>)"

text \<open>
  The loop of \<open>import_deck\<close> over the old cards. A \<open>KeyError\<close> of \<open>insert_card\<close> skips the
  card; a \<open>KeyError\<close> of \<open>old_term_to_stats[term]\<close> is swallowed by the same handler, after
  the card has been inserted with count 0.
\<close>

fun reinsert_old :: "(string \<times> string) list \<Rightarrow> (string, int) dict \<Rightarrow> deck \<Rightarrow> deck" where
  "reinsert_old [] old_term_to_stats d = d"
| "reinsert_old ((t, df) # rest) old_term_to_stats d =
     (case insert_card (Flashcard t df) d of
        (Inl _, d') \<Rightarrow> reinsert_old rest old_term_to_stats d'
      | (Inr _, d') \<Rightarrow>
          (case map_of old_term_to_stats t of
             None \<Rightarrow> reinsert_old rest old_term_to_stats d'
           | Some stats \<Rightarrow>
               reinsert_old rest old_term_to_stats
                 (d'\<lparr>term_to_mistakes := AList.update t stats (term_to_mistakes d')\<rparr>)))"

definition import_deck :: "snapshot \<Rightarrow> deck \<Rightarrow> nat \<times> deck" where
  "import_deck imported_deck d =
     (let old_term_to_definition = term_to_definition d;
          old_term_to_stats = term_to_mistakes d
      in (length imported_deck,
          reinsert_old old_term_to_definition old_term_to_stats
            (imported_state imported_deck)))"

text \<open>
  The loop of \<open>export_deck\<close>; \<open>self.term_to_mistakes[term]\<close> raises on a term without a
  count. The deck is only read.
\<close>

fun export_items :: "(string \<times> string) list \<Rightarrow> (string, int) dict \<Rightarrow> snapshot
    \<Rightarrow> error + snapshot" where
  "export_items [] t2m json_string = Inr json_string"
| "export_items ((t, df) # rest) t2m json_string =
     (case map_of t2m t of
        None \<Rightarrow> Inl NotFound
      | Some stats \<Rightarrow> export_items rest t2m (AList.update t (df, stats) json_string))"

definition export_deck :: "deck \<Rightarrow> error + snapshot \<times> nat" where
  "export_deck d =
     (case export_items (term_to_definition d) (term_to_mistakes d) [] of
        Inl e \<Rightarrow> Inl e
      | Inr json_string \<Rightarrow> Inr (json_string, len d))"

text \<open>
  \<open>ask\<close> returns \<open>(True, answer)\<close> or \<open>(False, term)\<close> with \<open>term\<close> possibly \<open>None\<close>; the
  second component is an optional string. \<open>self.term_to_mistakes[flashcard.term] += 1\<close>
  raises on a term without a count, before anything is written.
\<close>

definition ask :: "flashcard \<Rightarrow> string \<Rightarrow> deck \<Rightarrow> (error + bool \<times> string option) \<times> deck" where
  "ask c answer d =
     (if answer = card_definition c then (Inr (True, Some answer), d)
      else
        (case map_of (term_to_mistakes d) (card_term c) of
           None \<Rightarrow> (Inl NotFound, d)
         | Some m \<Rightarrow>
             (Inr (False, map_of (definition_to_term d) answer),
              d\<lparr>term_to_mistakes :=
                   AList.update (card_term c) (m + 1) (term_to_mistakes d)\<rparr>)))"

definition get_hardest_cards :: "deck \<Rightarrow> string list \<times> int" where
  "get_hardest_cards d =
     (let max_mistakes = max_default (map snd (term_to_mistakes d)) 0
      in if max_mistakes = 0 then ([], 0)
         else (map fst (filter (\<lambda>(t, mistakes). mistakes = max_mistakes) (term_to_mistakes d)),
               max_mistakes))"

definition reset_stats :: "deck \<Rightarrow> deck" where
  "reset_stats d =
     d\<lparr>term_to_mistakes := dict_fromkeys (map fst (term_to_definition d)) 0\<rparr>"

section \<open>Invariants of the data model\<close>

text \<open>
  The two indices are inverses of each other: every card of the term index is found under
  its definition in the inverse index and every entry of the inverse index is a card of the
  term index.
\<close>

definition inverse_maps :: "deck \<Rightarrow> bool" where
  "inverse_maps d =
     ((\<forall>(t, df) \<in> set (term_to_definition d). map_of (definition_to_term d) df = Some t)
      \<and> (\<forall>(df, t) \<in> set (definition_to_term d). map_of (term_to_definition d) t = Some df))"

text \<open>
  The invariants of the data model: each dictionary has every key once, the two indices are
  inverses, and the mistake counts have the key set of the term index.
\<close>

definition deck_inv :: "deck \<Rightarrow> bool" where
  "deck_inv d =
     (distinct (map fst (term_to_definition d))
      \<and> distinct (map fst (definition_to_term d))
      \<and> distinct (map fst (term_to_mistakes d))
      \<and> inverse_maps d
      \<and> set (map fst (term_to_definition d)) = set (map fst (term_to_mistakes d)))"

text \<open>The cards of a deck with their counts, as (term, definition, mistake count) triples.\<close>

definition triples :: "deck \<Rightarrow> (string \<times> string \<times> int) set" where
  "triples d =
     set (List.map_filter
            (\<lambda>(t, df). map_option (\<lambda>m. (t, df, m)) (map_of (term_to_mistakes d) t))
            (term_to_definition d))"


section \<open>Sequences of operations\<close>

datatype op =
    Insert_card flashcard
  | Remove_card flashcard
  | Import_deck snapshot
  | Export_deck
  | Ask flashcard string
  | Reset_stats

text \<open>The deck that an operation leaves behind, whether it returns or raises.\<close>

fun after :: "op \<Rightarrow> deck \<Rightarrow> deck" where
  "after (Insert_card c) d = snd (insert_card c d)"
| "after (Remove_card c) d = snd (remove_card c d)"
| "after (Import_deck js) d = snd (import_deck js d)"
| "after Export_deck d = d"
| "after (Ask c answer) d = snd (ask c answer d)"
| "after Reset_stats d = reset_stats d"

text \<open>
  The inputs on which the operations keep the two indices inverse: a snapshot is a
  dictionary (every term once) in which no definition occurs twice, and a card to remove is
  a card of the deck, definition included, unless its term is absent altogether.
\<close>

fun consistent_input :: "op \<Rightarrow> deck \<Rightarrow> bool" where
  "consistent_input (Import_deck js) d =
     (distinct (map fst js) \<and> distinct (map (\<lambda>(t, (df, _)). df) js))"
| "consistent_input (Remove_card c) d =
     (case map_of (term_to_definition d) (card_term c) of
        None \<Rightarrow> True
      | Some df \<Rightarrow> df = card_definition c)"
| "consistent_input _ d = True"

text \<open>The decks that such operations build from the empty deck.\<close>

inductive reachable :: "deck \<Rightarrow> bool" where
  reachable_empty: "reachable empty_deck"
| reachable_after: "reachable d \<Longrightarrow> consistent_input x d \<Longrightarrow> reachable (after x d)"


section \<open>Example decks\<close>

text \<open>The deck \<open>{"France": "Paris"}\<close> with no mistakes yet.\<close>

definition france_deck :: deck where
  "france_deck =
     \<lparr>term_to_definition = [(''France'', ''Paris'')],
      definition_to_term = [(''Paris'', ''France'')],
      term_to_mistakes = [(''France'', 0)]\<rparr>"

text \<open>The deck \<open>{"A": "1", "B": "2"}\<close>, with 5 mistakes on \<open>A\<close> and 7 on \<open>B\<close>.\<close>

definition ab_deck :: deck where
  "ab_deck =
     \<lparr>term_to_definition = [(''A'', ''1''), (''B'', ''2'')],
      definition_to_term = [(''1'', ''A''), (''2'', ''B'')],
      term_to_mistakes = [(''A'', 5), (''B'', 7)]\<rparr>"

text \<open>The snapshot \<open>{"A": ["9", 3], "C": ["3", 0]}\<close>.\<close>

definition ac_snapshot :: snapshot where
  "ac_snapshot = [(''A'', (''9'', 3)), (''C'', (''3'', 0))]"

text \<open>
  The deck that \<open>Deck({"A": ["x", 0], "B": ["x", 0]})\<close> builds: two terms with the one
  definition \<open>x\<close>.
\<close>

definition twin_deck :: deck where
  "twin_deck = snd (import_deck [(''A'', (''x'', 0)), (''B'', (''x'', 0))] empty_deck)"

text \<open>
  The deck that \<open>Deck({"A": ["x", 0], "B": ["x", 0], "D": ["w", 0]})\<close> builds, after
  \<open>remove_card\<close> of its own card \<open>B\<close> as \<open>get_by_term\<close> returns it: the card \<open>A\<close> still has
  the definition \<open>x\<close>, which the inverse index has lost with \<open>B\<close>.
\<close>

definition orphan_deck :: deck where
  "orphan_deck =
     snd (remove_card (Flashcard ''B'' ''x'')
            (snd (import_deck [(''A'', (''x'', 0)), (''B'', (''x'', 0)), (''D'', (''w'', 0))]
                    empty_deck)))"


section \<open>Facts about dictionaries\<close>

text \<open>
  Storing under a new key appends the entry; storing again under the last key replaces it.
\<close>

lemma update_fresh: "k \<notin> fst ` set al \<Longrightarrow> AList.update k v al = al @ [(k, v)]"
  by (induction al) auto

lemma update_last_entry:
  "k \<notin> fst ` set al \<Longrightarrow> AList.update k v (al @ [(k, w)]) = al @ [(k, v)]"
  by (induction al) auto

lemma keys_delete: "fst ` set (AList.delete k al) = fst ` set al - {k}"
  by (induction al) auto

lemma set_update_subset: "set (AList.update k v al) \<subseteq> insert (k, v) (set al)"
  by (induction al) auto

lemma in_keys_iff: "k \<in> fst ` set al \<longleftrightarrow> map_of al k \<noteq> None"
  by (simp add: map_of_eq_None_iff)

text \<open>
  A comprehension: the last item of a key gives its value, the keys are those of the items, and items whose keys are all different are stored as they come.
\<close>

lemma fold_update_map_of:
  "map_of (fold (\<lambda>(k, v). AList.update k v) items acc) = map_of acc ++ map_of (rev items)"
proof (induction items arbitrary: acc)
  case Nil
  show ?case by simp
next
  case (Cons p items)
  obtain k v where p: "p = (k, v)" by (cases p)
  show ?case
    by (simp add: p Cons.IH update_conv' map_add_upd_left fun_eq_iff map_add_def split: option.splits)
qed

lemma fold_update_keys:
  "fst ` set (fold (\<lambda>(k, v). AList.update k v) items acc) = fst ` set acc \<union> fst ` set items"
  by (induction items arbitrary: acc) (auto simp: dom_update split: prod.splits)

lemma fold_update_distinct:
  "distinct (map fst acc) \<Longrightarrow> distinct (map fst (fold (\<lambda>(k, v). AList.update k v) items acc))"
  by (induction items arbitrary: acc) (auto simp: distinct_update split: prod.splits)

lemma fold_update_fresh:
  "distinct (map fst items) \<Longrightarrow> fst ` set acc \<inter> fst ` set items = {}
   \<Longrightarrow> fold (\<lambda>(k, v). AList.update k v) items acc = acc @ items"
proof (induction items arbitrary: acc)
  case Nil
  show ?case by simp
next
  case (Cons p items)
  obtain k v where p: "p = (k, v)" by (cases p)
  have k: "k \<notin> fst ` set acc" using Cons.prems(2) by (auto simp: p)
  have "fold (\<lambda>(k, v). AList.update k v) items (acc @ [(k, v)]) = (acc @ [(k, v)]) @ items"
    using Cons.prems by (intro Cons.IH) (auto simp: p)
  then show ?case by (simp add: p update_fresh [OF k])
qed

lemma set_fold_update_subset:
  "set (fold (\<lambda>(k, v). AList.update k v) items acc) \<subseteq> set acc \<union> set items"
proof (induction items arbitrary: acc)
  case Nil
  show ?case by simp
next
  case (Cons p items)
  obtain k v where p: "p = (k, v)" by (cases p)
  show ?case using Cons.IH [of "AList.update k v acc"] set_update_subset [of k v acc]
    by (auto simp: p)
qed

lemma dict_comp_map_of: "map_of (dict_comp items) = map_of (rev items)"
  by (simp add: dict_comp_def fold_update_map_of)

lemma dict_comp_keys: "fst ` set (dict_comp items) = fst ` set items"
  by (simp add: dict_comp_def fold_update_keys)

lemma dict_comp_distinct: "distinct (map fst (dict_comp items))"
  by (simp add: dict_comp_def fold_update_distinct)

lemma dict_comp_id: "distinct (map fst items) \<Longrightarrow> dict_comp items = items"
  by (simp add: dict_comp_def fold_update_fresh)

lemma set_dict_comp_subset: "set (dict_comp items) \<subseteq> set items"
  using set_fold_update_subset [of items "[]"] by (simp add: dict_comp_def)

lemma map_of_counts_of_snapshot:
  "map_of (map (\<lambda>(t, (_, stats)). (t, stats)) js) t = map_option snd (map_of js t)"
  by (induction js) auto

lemma map_of_key_function:
  "map_of (map (\<lambda>(k, v). (k, f k)) xs) k = (if k \<in> fst ` set xs then Some (f k) else None)"
  by (induction xs) (auto simp: image_iff)

text \<open>
  \<open>max\<close> with a default.
\<close>

lemma max_default_Max: "max_default xs dflt = Max (set xs)" if "xs \<noteq> []"
proof (cases xs)
  case Nil
  then show ?thesis using that by simp
next
  case (Cons x ys)
  have "Max (set (x # ys)) = fold max ys x" by (rule Max.set_eq_fold)
  then show ?thesis by (simp add: Cons max_default_def)
qed

lemma max_default_zeros: "\<forall>x \<in> set xs. x = 0 \<Longrightarrow> max_default xs 0 = 0"
proof (cases "xs = []")
  case True
  then show ?thesis by (simp add: max_default_def)
next
  case False
  assume z: "\<forall>x \<in> set xs. x = 0"
  with False have "set xs = {0}" by (cases xs) auto
  then show ?thesis using False by (simp add: max_default_Max)
qed


section \<open>Facts about the invariants\<close>

lemma inverse_maps_iff:
  assumes "distinct (map fst (term_to_definition d))" "distinct (map fst (definition_to_term d))"
  shows "inverse_maps d \<longleftrightarrow>
    (\<forall>t df. map_of (term_to_definition d) t = Some df
              \<longleftrightarrow> map_of (definition_to_term d) df = Some t)"
  using assms unfolding inverse_maps_def by (simp add: split_beta) (metis prod.collapse fst_conv snd_conv)

lemma deck_invI:
  assumes "distinct (map fst (term_to_definition d))"
    and "distinct (map fst (definition_to_term d))"
    and "distinct (map fst (term_to_mistakes d))"
    and "\<And>t df. map_of (term_to_definition d) t = Some df
            \<longleftrightarrow> map_of (definition_to_term d) df = Some t"
    and "fst ` set (term_to_definition d) = fst ` set (term_to_mistakes d)"
  shows "deck_inv d"
  using assms inverse_maps_iff [of d] by (simp add: deck_inv_def)

lemma deck_inv_distinct:
  assumes "deck_inv d"
  shows "distinct (map fst (term_to_definition d))"
    and "distinct (map fst (definition_to_term d))"
    and "distinct (map fst (term_to_mistakes d))"
  using assms by (simp_all add: deck_inv_def)

lemma deck_inv_lookup:
  assumes "deck_inv d"
  shows "map_of (term_to_definition d) t = Some df
           \<longleftrightarrow> map_of (definition_to_term d) df = Some t"
  using assms inverse_maps_iff [of d] by (simp add: deck_inv_def)

lemma deck_inv_counts:
  assumes "deck_inv d"
  shows "t \<in> fst ` set (term_to_mistakes d) \<longleftrightarrow> t \<in> fst ` set (term_to_definition d)"
  using assms by (simp add: deck_inv_def)

lemma deck_inv_definitions_distinct:
  assumes "deck_inv d"
  shows "distinct (map snd (term_to_definition d))"
proof -
  have "distinct (term_to_definition d)"
    using deck_inv_distinct(1) [OF assms] by (rule distinct_map [THEN iffD1, THEN conjunct1])
  moreover have "inj_on snd (set (term_to_definition d))"
  proof (rule inj_onI)
    fix p q
    assume p: "p \<in> set (term_to_definition d)" and q: "q \<in> set (term_to_definition d)"
      and eq: "snd p = snd q"
    from assms have inv: "inverse_maps d" by (simp add: deck_inv_def)
    from p inv have "map_of (definition_to_term d) (snd p) = Some (fst p)"
      unfolding inverse_maps_def by (cases p) auto
    moreover from q inv have "map_of (definition_to_term d) (snd q) = Some (fst q)"
      unfolding inverse_maps_def by (cases q) auto
    ultimately have "fst p = fst q" using eq by simp
    with eq show "p = q" by (simp add: prod_eq_iff)
  qed
  ultimately show ?thesis by (simp add: distinct_map)
qed

lemma empty_deck_inv: "deck_inv empty_deck"
  by (simp add: deck_inv_def inverse_maps_def empty_deck_def)

lemma france_deck_inv: "deck_inv france_deck"
  by (simp add: deck_inv_def inverse_maps_def france_deck_def)

lemma ab_deck_inv: "deck_inv ab_deck"
  by (simp add: deck_inv_def inverse_maps_def ab_deck_def)


section \<open>The operations and the invariants\<close>

text \<open>
  \<open>insert_card\<close> either appends the card or changes nothing.
\<close>

lemma insert_card_fresh:
  assumes "t \<notin> fst ` set (term_to_definition e)" and "df \<notin> fst ` set (definition_to_term e)"
  shows "insert_card (Flashcard t df) e =
    (Inr (), e\<lparr>term_to_definition := term_to_definition e @ [(t, df)],
               definition_to_term := definition_to_term e @ [(df, t)],
               term_to_mistakes := AList.update t 0 (term_to_mistakes e)\<rparr>)"
  using assms by (simp add: insert_card_def update_fresh)

lemma insert_card_collision:
  assumes "t \<in> fst ` set (term_to_definition e) \<or> df \<in> fst ` set (definition_to_term e)"
  shows "insert_card (Flashcard t df) e = (Inl DuplicateKey, e)"
  using assms by (simp add: insert_card_def)

lemma insert_card_failure_unchanged:
  "fst (insert_card c d) = Inl e \<Longrightarrow> snd (insert_card c d) = d"
  by (auto simp: insert_card_def split: if_splits)

lemma insert_card_inv:
  assumes "deck_inv d"
  shows "deck_inv (snd (insert_card c d))"
proof (cases "card_term c \<in> fst ` set (term_to_definition d)
         \<or> card_definition c \<in> fst ` set (definition_to_term d)")
  case True
  then show ?thesis using assms by (simp add: insert_card_def)
next
  case False
  then have t: "map_of (term_to_definition d) (card_term c) = None"
    and df: "map_of (definition_to_term d) (card_definition c) = None"
    by (simp_all add: in_keys_iff)
  let ?d' = "snd (insert_card c d)"
  have t2d: "map_of (term_to_definition ?d') = (map_of (term_to_definition d))(card_term c \<mapsto> card_definition c)"
    and d2t: "map_of (definition_to_term ?d') = (map_of (definition_to_term d))(card_definition c \<mapsto> card_term c)"
    using False by (simp_all add: insert_card_def update_conv')
  show ?thesis
  proof (rule deck_invI)
    show "distinct (map fst (term_to_definition ?d'))"
      "distinct (map fst (definition_to_term ?d'))"
      "distinct (map fst (term_to_mistakes ?d'))"
      using False deck_inv_distinct [OF assms] by (simp_all add: insert_card_def distinct_update)
    show "fst ` set (term_to_definition ?d') = fst ` set (term_to_mistakes ?d')"
      using False deck_inv_counts [OF assms] by (auto simp: insert_card_def dom_update)
    show "map_of (term_to_definition ?d') t' = Some df'
            \<longleftrightarrow> map_of (definition_to_term ?d') df' = Some t'" for t' df'
      using t df deck_inv_lookup [OF assms, of t' df'] by (auto simp: t2d d2t)
  qed
qed

text \<open>
  \<open>remove_card\<close> of a card of the deck deletes its three entries. With the term of a card and a definition that is not its own it deletes the term and then either raises or deletes the entry of another card from the inverse index.
\<close>

lemma remove_card_of_deck:
  assumes "deck_inv d"
    and "map_of (term_to_definition d) (card_term c) = Some (card_definition c)"
  shows "remove_card c d =
    (Inr (),
     d\<lparr>term_to_definition := AList.delete (card_term c) (term_to_definition d),
       term_to_mistakes := AList.delete (card_term c) (term_to_mistakes d),
       definition_to_term := AList.delete (card_definition c) (definition_to_term d)\<rparr>)"
proof -
  have "map_of (definition_to_term d) (card_definition c) = Some (card_term c)"
    using deck_inv_lookup [OF assms(1)] assms(2) by simp
  then have k3: "card_definition c \<in> fst ` set (definition_to_term d)"
    by (simp add: in_keys_iff)
  have k1: "card_term c \<in> fst ` set (term_to_definition d)"
    using assms(2) by (simp add: in_keys_iff)
  then have k2: "card_term c \<in> fst ` set (term_to_mistakes d)"
    using deck_inv_counts [OF assms(1)] by simp
  show ?thesis using k1 k2 k3 by (simp add: remove_card_def Let_def)
qed

lemma remove_card_inv:
  assumes "deck_inv d"
    and "consistent_input (Remove_card c) d"
  shows "deck_inv (snd (remove_card c d))"
proof (cases "map_of (term_to_definition d) (card_term c)")
  case None
  then have "card_term c \<notin> fst ` set (term_to_definition d)" by (simp add: in_keys_iff)
  then show ?thesis using assms(1) by (simp add: remove_card_def)
next
  case (Some df0)
  with assms(2) have t: "map_of (term_to_definition d) (card_term c) = Some (card_definition c)"
    by simp
  then have df: "map_of (definition_to_term d) (card_definition c) = Some (card_term c)"
    using deck_inv_lookup [OF assms(1)] by simp
  have k1: "card_term c \<in> fst ` set (term_to_definition d)" using t by (simp add: in_keys_iff)
  have k2: "card_term c \<in> fst ` set (term_to_mistakes d)"
    using k1 deck_inv_counts [OF assms(1)] by simp
  have k3: "card_definition c \<in> fst ` set (definition_to_term d)"
    using df by (simp add: in_keys_iff)
  let ?d' = "d\<lparr>term_to_definition := AList.delete (card_term c) (term_to_definition d),
                term_to_mistakes := AList.delete (card_term c) (term_to_mistakes d),
                definition_to_term := AList.delete (card_definition c) (definition_to_term d)\<rparr>"
  have res: "remove_card c d = (Inr (), ?d')"
    using k1 k2 k3 by (simp add: remove_card_def Let_def)
  have "deck_inv ?d'"
  proof (rule deck_invI)
    show "distinct (map fst (term_to_definition ?d'))"
      "distinct (map fst (definition_to_term ?d'))"
      "distinct (map fst (term_to_mistakes ?d'))"
      using deck_inv_distinct [OF assms(1)] by (simp_all add: distinct_delete)
    show "fst ` set (term_to_definition ?d') = fst ` set (term_to_mistakes ?d')"
      using deck_inv_counts [OF assms(1)] by (auto simp: keys_delete)
    show "map_of (term_to_definition ?d') t' = Some df'
            \<longleftrightarrow> map_of (definition_to_term ?d') df' = Some t'" for t' df'
      using t df deck_inv_lookup [OF assms(1), of t' df']
        deck_inv_lookup [OF assms(1), of "card_term c" df']
        deck_inv_lookup [OF assms(1), of t' "card_definition c"]
      by (auto simp: delete_conv')
  qed
  then show ?thesis by (simp add: res)
qed

lemma remove_card_wrong_definition_returns:
  "remove_card (Flashcard ''A'' ''2'') ab_deck =
     (Inr (),
      \<lparr>term_to_definition = [(''B'', ''2'')], definition_to_term = [(''1'', ''A'')],
       term_to_mistakes = [(''B'', 7)]\<rparr>)"
  by (simp add: remove_card_def ab_deck_def)

text \<open>
  \<open>ask\<close> and \<open>reset_stats\<close> write the mistake counts only.
\<close>

lemma update_count_inv:
  assumes "deck_inv d" and "t \<in> fst ` set (term_to_mistakes d)"
  shows "deck_inv (d\<lparr>term_to_mistakes := AList.update t m (term_to_mistakes d)\<rparr>)"
  using assms by (auto simp: deck_inv_def inverse_maps_def distinct_update dom_update)

lemma ask_failure_unchanged:
  "fst (ask c answer d) = Inl e \<Longrightarrow> snd (ask c answer d) = d"
  by (auto simp: ask_def split: if_splits option.splits)

lemma ask_inv:
  assumes "deck_inv d"
  shows "deck_inv (snd (ask c answer d))"
proof (cases "answer \<noteq> card_definition c \<and> card_term c \<in> fst ` set (term_to_mistakes d)")
  case True
  then obtain m where "map_of (term_to_mistakes d) (card_term c) = Some m"
    unfolding in_keys_iff by blast
  then show ?thesis using True update_count_inv [OF assms, of "card_term c"]
    by (simp add: ask_def)
next
  case False
  then show ?thesis using assms by (auto simp: ask_def in_keys_iff split: option.splits)
qed

lemma reset_stats_inv:
  assumes "deck_inv d"
  shows "deck_inv (reset_stats d)"
proof (rule deck_invI)
  show "distinct (map fst (term_to_definition (reset_stats d)))"
    "distinct (map fst (definition_to_term (reset_stats d)))"
    using deck_inv_distinct [OF assms] by (simp_all add: reset_stats_def)
  show "distinct (map fst (term_to_mistakes (reset_stats d)))"
    by (simp add: reset_stats_def dict_fromkeys_def dict_comp_distinct)
  show "fst ` set (term_to_definition (reset_stats d)) = fst ` set (term_to_mistakes (reset_stats d))"
    by (simp add: reset_stats_def dict_fromkeys_def dict_comp_keys image_image)
  show "map_of (term_to_definition (reset_stats d)) t = Some df
          \<longleftrightarrow> map_of (definition_to_term (reset_stats d)) df = Some t" for t df
    using deck_inv_lookup [OF assms, of t df] by (simp add: reset_stats_def)
qed

text \<open>
  The state that \<open>import_deck\<close> builds from a snapshot, and the loop over the old cards: it appends the old cards that collide with nothing, in their old order, with their old counts.
\<close>

lemma imported_state_lists:
  assumes "distinct (map fst js)"
  shows "term_to_definition (imported_state js) = map (\<lambda>(t, (df, _)). (t, df)) js"
    and "term_to_mistakes (imported_state js) = map (\<lambda>(t, (_, stats)). (t, stats)) js"
    and "definition_to_term (imported_state js) = dict_comp (map (\<lambda>(t, (df, _)). (df, t)) js)"
proof -
  have k1: "map fst (map (\<lambda>(t, (df, _)). (t, df)) js) = map fst js"
    and k2: "map fst (map (\<lambda>(t, (_, stats)). (t, stats)) js) = map fst js"
    by (simp_all add: split_beta comp_def)
  have c1: "dict_comp (map (\<lambda>(t, (df, _)). (t, df)) js) = map (\<lambda>(t, (df, _)). (t, df)) js"
    by (rule dict_comp_id) (simp only: k1 assms)
  have c2: "dict_comp (map (\<lambda>(t, (_, stats)). (t, stats)) js)
              = map (\<lambda>(t, (_, stats)). (t, stats)) js"
    by (rule dict_comp_id) (simp only: k2 assms)
  show t2d: "term_to_definition (imported_state js) = map (\<lambda>(t, (df, _)). (t, df)) js"
    by (simp add: imported_state_def Let_def c1)
  show "term_to_mistakes (imported_state js) = map (\<lambda>(t, (_, stats)). (t, stats)) js"
    by (simp add: imported_state_def Let_def c2)
  have sw: "map (\<lambda>(t, df). (df, t)) (map (\<lambda>(t, (df, _)). (t, df)) js)
          = map (\<lambda>(t, (df, _)). (df, t)) js"
    by (simp add: split_beta comp_def)
  have "definition_to_term (imported_state js)
          = dict_comp (map (\<lambda>(t, df). (df, t)) (dict_comp (map (\<lambda>(t, (df, _)). (t, df)) js)))"
    by (simp add: imported_state_def Let_def)
  then show "definition_to_term (imported_state js) = dict_comp (map (\<lambda>(t, (df, _)). (df, t)) js)"
    by (simp only: c1 sw)
qed

lemma imported_state_keys:
  assumes "distinct (map fst js)"
  shows "fst ` set (term_to_definition (imported_state js)) = fst ` set js"
    and "fst ` set (term_to_mistakes (imported_state js)) = fst ` set js"
    and "fst ` set (definition_to_term (imported_state js)) = (\<lambda>(t, (df, _)). df) ` set js"
  by (simp_all add: imported_state_lists [OF assms] dict_comp_keys image_image split_beta)

lemma imported_state_inv:
  assumes "distinct (map fst js)" and "distinct (map (\<lambda>(t, (df, _)). df) js)"
  shows "deck_inv (imported_state js)"
proof (rule deck_invI)
  have k1: "map fst (map (\<lambda>(t, (df, _)). (t, df)) js) = map fst js"
    and k2: "map fst (map (\<lambda>(t, (_, stats)). (t, stats)) js) = map fst js"
    and k3: "map fst (map (\<lambda>(t, (df, _)). (df, t)) js) = map (\<lambda>(t, (df, _)). df) js"
    by (simp_all add: split_beta comp_def)
  have "dict_comp (map (\<lambda>(t, (df, _)). (df, t)) js) = map (\<lambda>(t, (df, _)). (df, t)) js"
    by (rule dict_comp_id) (simp only: k3 assms(2))
  then have d2t: "definition_to_term (imported_state js) = map (\<lambda>(t, (df, _)). (df, t)) js"
    by (simp only: imported_state_lists(3) [OF assms(1)])
  show "distinct (map fst (term_to_definition (imported_state js)))"
    by (simp only: imported_state_lists(1) [OF assms(1)] k1 assms(1))
  show "distinct (map fst (term_to_mistakes (imported_state js)))"
    by (simp only: imported_state_lists(2) [OF assms(1)] k2 assms(1))
  show "distinct (map fst (definition_to_term (imported_state js)))"
    by (simp only: d2t k3 assms(2))
  show "fst ` set (term_to_definition (imported_state js))
          = fst ` set (term_to_mistakes (imported_state js))"
    by (simp add: imported_state_keys [OF assms(1)])
  show "map_of (term_to_definition (imported_state js)) t = Some df
          \<longleftrightarrow> map_of (definition_to_term (imported_state js)) df = Some t" for t df
  proof -
    have "map_of (map (\<lambda>(t, (df, _)). (t, df)) js) t = Some df
            \<longleftrightarrow> (t, df) \<in> set (map (\<lambda>(t, (df, _)). (t, df)) js)"
      by (rule map_of_eq_Some_iff) (simp only: k1 assms(1))
    moreover have "map_of (map (\<lambda>(t, (df, _)). (df, t)) js) df = Some t
            \<longleftrightarrow> (df, t) \<in> set (map (\<lambda>(t, (df, _)). (df, t)) js)"
      by (rule map_of_eq_Some_iff) (simp only: k3 assms(2))
    moreover have "(t, df) \<in> set (map (\<lambda>(t, (df, _)). (t, df)) js)
            \<longleftrightarrow> (df, t) \<in> set (map (\<lambda>(t, (df, _)). (df, t)) js)"
      by (auto simp: image_iff split_beta)
    ultimately show ?thesis
      by (simp only: imported_state_lists(1) [OF assms(1)] d2t)
  qed
qed

lemma reinsert_old_lists:
  assumes "distinct (map fst items)" and "distinct (map snd items)"
    and "fst ` set (term_to_mistakes e) = fst ` set (term_to_definition e)"
  shows "term_to_definition (reinsert_old items stats e) =
           term_to_definition e
           @ filter (\<lambda>(t, df). t \<notin> fst ` set (term_to_definition e)
                                 \<and> df \<notin> fst ` set (definition_to_term e)) items
       \<and> definition_to_term (reinsert_old items stats e) =
           definition_to_term e
           @ map (\<lambda>(t, df). (df, t))
               (filter (\<lambda>(t, df). t \<notin> fst ` set (term_to_definition e)
                                 \<and> df \<notin> fst ` set (definition_to_term e)) items)
       \<and> term_to_mistakes (reinsert_old items stats e) =
           term_to_mistakes e
           @ map (\<lambda>(t, df). (t, case map_of stats t of None \<Rightarrow> 0 | Some m \<Rightarrow> m))
               (filter (\<lambda>(t, df). t \<notin> fst ` set (term_to_definition e)
                                 \<and> df \<notin> fst ` set (definition_to_term e)) items)"
  using assms
proof (induction items arbitrary: e)
  case Nil
  show ?case by simp
next
  case (Cons p items)
  obtain t df where p: "p = (t, df)" by (cases p)
  have rest: "distinct (map fst items)" "distinct (map snd items)"
    using Cons.prems by (auto simp: p)
  show ?case
  proof (cases "t \<in> fst ` set (term_to_definition e) \<or> df \<in> fst ` set (definition_to_term e)")
    case True
    have "reinsert_old (p # items) stats e = reinsert_old items stats e"
      by (simp add: p insert_card_collision [OF True])
    moreover have "filter (\<lambda>(t, df). t \<notin> fst ` set (term_to_definition e)
                                 \<and> df \<notin> fst ` set (definition_to_term e)) (p # items)
        = filter (\<lambda>(t, df). t \<notin> fst ` set (term_to_definition e)
                                 \<and> df \<notin> fst ` set (definition_to_term e)) items"
      using True by (auto simp: p)
    ultimately show ?thesis using Cons.IH [OF rest Cons.prems(3)] by simp
  next
    case False
    then have ft: "t \<notin> fst ` set (term_to_definition e)"
      and fd: "df \<notin> fst ` set (definition_to_term e)" by simp_all
    have fm: "t \<notin> fst ` set (term_to_mistakes e)" using ft Cons.prems(3) by simp
    define m where "m = (case map_of stats t of None \<Rightarrow> 0 | Some m \<Rightarrow> m)"
    define e1 where "e1 = e\<lparr>term_to_definition := term_to_definition e @ [(t, df)],
               definition_to_term := definition_to_term e @ [(df, t)],
               term_to_mistakes := term_to_mistakes e @ [(t, m)]\<rparr>"
    have step: "reinsert_old (p # items) stats e = reinsert_old items stats e1"
    proof (cases "map_of stats t")
      case None
      then show ?thesis
        by (simp add: p insert_card_fresh [OF ft fd] m_def e1_def update_fresh [OF fm])
    next
      case (Some k)
      then show ?thesis
        by (simp add: p insert_card_fresh [OF ft fd] m_def e1_def update_fresh [OF fm]
            update_last_entry [OF fm])
    qed
    have keys1: "fst ` set (term_to_mistakes e1) = fst ` set (term_to_definition e1)"
      using Cons.prems(3) by (simp add: e1_def)
    have same: "(t' \<notin> fst ` set (term_to_definition e1) \<and> df' \<notin> fst ` set (definition_to_term e1))
        = (t' \<notin> fst ` set (term_to_definition e) \<and> df' \<notin> fst ` set (definition_to_term e))"
      if "(t', df') \<in> set items" for t' df'
    proof -
      from that Cons.prems(1) have "t' \<noteq> t" by (force simp: p)
      moreover from that Cons.prems(2) have "df' \<noteq> df" by (force simp: p)
      ultimately show ?thesis by (auto simp: e1_def)
    qed
    have filt: "filter (\<lambda>(t, df). t \<notin> fst ` set (term_to_definition e1)
                                 \<and> df \<notin> fst ` set (definition_to_term e1)) items
        = filter (\<lambda>(t, df). t \<notin> fst ` set (term_to_definition e)
                                 \<and> df \<notin> fst ` set (definition_to_term e)) items"
    proof (rule filter_cong [OF refl])
      fix x assume x: "x \<in> set items"
      obtain t' df' where x': "x = (t', df')" by (cases x)
      show "(case x of (t, df) \<Rightarrow> t \<notin> fst ` set (term_to_definition e1)
                                 \<and> df \<notin> fst ` set (definition_to_term e1))
          = (case x of (t, df) \<Rightarrow> t \<notin> fst ` set (term_to_definition e)
                                 \<and> df \<notin> fst ` set (definition_to_term e))"
        using same [of t' df'] x by (simp only: x' prod.case)
    qed
    have here: "filter (\<lambda>(t, df). t \<notin> fst ` set (term_to_definition e)
                                 \<and> df \<notin> fst ` set (definition_to_term e)) (p # items)
        = p # filter (\<lambda>(t, df). t \<notin> fst ` set (term_to_definition e)
                                 \<and> df \<notin> fst ` set (definition_to_term e)) items"
      using ft fd by (simp add: p)
    show ?thesis
      using Cons.IH [OF rest keys1]
      by (simp only: step filt here) (simp add: e1_def p m_def)
  qed
qed

lemma reinsert_old_inv:
  assumes "deck_inv e"
  shows "deck_inv (reinsert_old items stats e)"
  using assms
proof (induction items arbitrary: e)
  case Nil
  then show ?case by simp
next
  case (Cons p items)
  obtain t df where p: "p = (t, df)" by (cases p)
  show ?case
  proof (cases "t \<in> fst ` set (term_to_definition e) \<or> df \<in> fst ` set (definition_to_term e)")
    case True
    then show ?thesis using Cons by (simp add: p insert_card_collision)
  next
    case False
    define e1 where "e1 = snd (insert_card (Flashcard t df) e)"
    have ins: "insert_card (Flashcard t df) e = (Inr (), e1)"
      using False by (simp add: e1_def insert_card_def)
    have inv1: "deck_inv e1" unfolding e1_def by (rule insert_card_inv [OF Cons.prems])
    have key: "t \<in> fst ` set (term_to_mistakes e1)"
      using False by (simp add: e1_def insert_card_def dom_update)
    show ?thesis
    proof (cases "map_of stats t")
      case None
      then show ?thesis using Cons.IH [OF inv1] by (simp add: p ins)
    next
      case (Some m)
      then show ?thesis using Cons.IH [OF update_count_inv [OF inv1 key, of m]]
        by (simp add: p ins)
    qed
  qed
qed

lemma import_deck_inv:
  assumes "consistent_input (Import_deck js) d"
  shows "deck_inv (snd (import_deck js d))"
  using assms by (simp add: import_deck_def reinsert_old_inv imported_state_inv)

lemma import_scenario:
  "import_deck ac_snapshot ab_deck =
     (2, \<lparr>term_to_definition = [(''A'', ''9''), (''C'', ''3''), (''B'', ''2'')],
          definition_to_term = [(''9'', ''A''), (''3'', ''C''), (''2'', ''B'')],
          term_to_mistakes = [(''A'', 3), (''C'', 0), (''B'', 7)]\<rparr>)"
  by (simp add: import_deck_def imported_state_def dict_comp_def insert_card_def
      ac_snapshot_def ab_deck_def)

text \<open>
  \<open>export_deck\<close> returns every card with its count when every term has one.
\<close>

lemma export_items_all:
  assumes "distinct (map fst items)"
    and "fst ` set acc \<inter> fst ` set items = {}"
    and "fst ` set items \<subseteq> fst ` set t2m"
  shows "export_items items t2m acc =
    Inr (acc @ map (\<lambda>(t, df). (t, (df, the (map_of t2m t)))) items)"
  using assms
proof (induction items arbitrary: acc)
  case Nil
  show ?case by simp
next
  case (Cons p items)
  obtain t df where p: "p = (t, df)" by (cases p)
  from Cons.prems(3) obtain m where m: "map_of t2m t = Some m"
    by (auto simp: p in_keys_iff)
  have fresh: "t \<notin> fst ` set acc" using Cons.prems(2) by (auto simp: p)
  have "export_items items t2m (acc @ [(t, (df, m))]) =
    Inr ((acc @ [(t, (df, m))]) @ map (\<lambda>(t, df). (t, (df, the (map_of t2m t)))) items)"
    using Cons.prems by (intro Cons.IH) (auto simp: p)
  then show ?case by (simp add: p m update_fresh [OF fresh])
qed

text \<open>
  Every operation on a consistent input keeps the invariants, so every reachable deck has them.
\<close>

lemma after_inv:
  assumes "deck_inv d" and "consistent_input x d"
  shows "deck_inv (after x d)"
proof (cases x)
  case (Insert_card c)
  then show ?thesis using assms by (simp add: insert_card_inv)
next
  case (Remove_card c)
  then show ?thesis using assms remove_card_inv [of d c] by simp
next
  case (Import_deck js)
  then show ?thesis using assms import_deck_inv [of js d] by simp
next
  case Export_deck
  then show ?thesis using assms by simp
next
  case (Ask c answer)
  then show ?thesis using assms by (simp add: ask_inv)
next
  case Reset_stats
  then show ?thesis using assms by (simp add: reset_stats_inv)
qed

lemma reachable_inv: "reachable d \<Longrightarrow> deck_inv d"
  by (induction rule: reachable.induct) (simp_all add: empty_deck_inv after_inv)

lemma ab_deck_reachable: "reachable ab_deck"
proof -
  have "after (Import_deck [(''A'', (''1'', 5)), (''B'', (''2'', 7))]) empty_deck = ab_deck"
    by (simp add: import_deck_def imported_state_def dict_comp_def empty_deck_def ab_deck_def)
  moreover have "consistent_input (Import_deck [(''A'', (''1'', 5)), (''B'', (''2'', 7))]) empty_deck"
    by simp
  ultimately show ?thesis using reachable_after [OF reachable_empty] by metis
qed


section \<open>The claims\<close>


text \<open>
  Claim C1, amended. For every deck reachable from the empty deck by operations on
  consistent inputs, and every operation on a consistent input, the two indices are exact
  inverses of each other when the operation completes: a term is mapped to a definition
  exactly when that definition is mapped back to the term. \<open>insert_card\<close>, \<open>export_deck\<close>,
  \<open>ask\<close> and \<open>reset_stats\<close> are covered with any input, \<open>import_deck\<close> with a snapshot in
  which no definition occurs twice, \<open>remove_card\<close> with a card of the deck or a term that
  is absent.
\<close>

theorem indices_inverse_after:
  assumes "reachable d" and "consistent_input x d"
  shows "inverse_maps (after x d)
    \<and> (\<forall>t df. map_of (term_to_definition (after x d)) t = Some df
                \<longleftrightarrow> map_of (definition_to_term (after x d)) df = Some t)"
proof -
  have inv: "deck_inv (after x d)"
    using assms by (intro after_inv reachable_inv)
  then have "inverse_maps (after x d)" by (simp add: deck_inv_def)
  then show ?thesis using deck_inv_lookup [OF inv] by blast
qed

theorem indices_inverse_after_witness:
  "reachable ab_deck
   \<and> consistent_input (Import_deck ac_snapshot) ab_deck
   \<and> inverse_maps (after (Import_deck ac_snapshot) ab_deck)
   \<and> (\<forall>t df. map_of (term_to_definition (after (Import_deck ac_snapshot) ab_deck)) t = Some df
                \<longleftrightarrow> map_of (definition_to_term (after (Import_deck ac_snapshot) ab_deck)) df = Some t)"
proof -
  have c: "consistent_input (Import_deck ac_snapshot) ab_deck"
    by (simp add: ac_snapshot_def)
  show ?thesis
    using ab_deck_reachable c indices_inverse_after [OF ab_deck_reachable c] by simp
qed

text \<open>
  Claim C1 as stated, for every operation with every input, fails: importing the snapshot
  \<open>{"A": ["x", 0], "B": ["x", 0]}\<close> into the empty deck gives both terms the definition
  \<open>x\<close>, while the rebuilt inverse index maps \<open>x\<close> to \<open>B\<close> only.
\<close>

theorem import_twin_definition_counterexample:
  "term_to_definition (after (Import_deck [(''A'', (''x'', 0)), (''B'', (''x'', 0))]) empty_deck)
     = [(''A'', ''x''), (''B'', ''x'')]
   \<and> definition_to_term (after (Import_deck [(''A'', (''x'', 0)), (''B'', (''x'', 0))]) empty_deck)
     = [(''x'', ''B'')]
   \<and> \<not> inverse_maps (after (Import_deck [(''A'', (''x'', 0)), (''B'', (''x'', 0))]) empty_deck)"
  by (simp add: import_deck_def imported_state_def dict_comp_def empty_deck_def inverse_maps_def)


text \<open>
  Claim C2 fails on the code. On the deck \<open>{"France": "Paris"}\<close>, \<open>remove_card\<close> of the card
  \<open>("France", "Rome")\<close> raises, yet the term is gone from the term index and from the
  mistake counts while the inverse index still maps \<open>Paris\<close> to \<open>France\<close>: the failed call
  has removed two of the three entries.
\<close>

theorem remove_card_partial_failure:
  "remove_card (Flashcard ''France'' ''Rome'') france_deck =
     (Inl NotFound,
      \<lparr>term_to_definition = [], definition_to_term = [(''Paris'', ''France'')],
       term_to_mistakes = []\<rparr>)"
  by (simp add: remove_card_def france_deck_def)


text \<open>
  Claim C3, amended. On a deck in which no two terms have the same definition, and a
  snapshot (a dictionary, every term once), \<open>import_deck\<close> returns the number of entries of
  the snapshot. The term index becomes the imported cards followed by the old cards whose
  term is no imported term and whose definition is no imported definition, in their old
  order; every other old card is dropped. The inverse index maps an imported definition to
  the last imported term that has it, and the definition of a surviving old card to its
  term; where no imported definition occurs twice it is the list of the imported cards
  followed by the surviving old cards, each turned round. An imported term has its
  imported count, a surviving old term its old count (0 if it had none), and no other term
  has a count. For the deck \<open>{"A": "1", "B": "2"}\<close> and the snapshot
  \<open>{"A": ["9", 3], "C": ["3", 0]}\<close> the result is \<open>A\<close> with \<open>9\<close> and 3 mistakes, \<open>C\<close> with
  \<open>3\<close> and 0 mistakes, \<open>B\<close> with \<open>2\<close> and its old count, and the call returns 2.
\<close>

theorem import_deck_merge:
  assumes "distinct (map fst (term_to_definition d))"
    and "distinct (map snd (term_to_definition d))"
    and "distinct (map fst js)"
  shows "fst (import_deck js d) = length js
    \<and> term_to_definition (snd (import_deck js d)) =
        map (\<lambda>(t, (df, _)). (t, df)) js
        @ filter (\<lambda>(t, df). t \<notin> fst ` set js \<and> df \<notin> (\<lambda>(t, (df, _)). df) ` set js)
            (term_to_definition d)
    \<and> (\<forall>df. map_of (definition_to_term (snd (import_deck js d))) df =
          (case map_of (rev (map (\<lambda>(t, (df, _)). (df, t)) js)) df of
             Some t \<Rightarrow> Some t
           | None \<Rightarrow>
               map_of (map (\<lambda>(t, df). (df, t))
                 (filter (\<lambda>(t, df). t \<notin> fst ` set js \<and> df \<notin> (\<lambda>(t, (df, _)). df) ` set js)
                    (term_to_definition d))) df))
    \<and> (distinct (map (\<lambda>(t, (df, _)). df) js) \<longrightarrow>
          definition_to_term (snd (import_deck js d)) =
            map (\<lambda>(t, (df, _)). (df, t)) js
            @ map (\<lambda>(t, df). (df, t))
                (filter (\<lambda>(t, df). t \<notin> fst ` set js \<and> df \<notin> (\<lambda>(t, (df, _)). df) ` set js)
                   (term_to_definition d)))
    \<and> (\<forall>t. map_of (term_to_mistakes (snd (import_deck js d))) t =
          (case map_of js t of
             Some (df, stats) \<Rightarrow> Some stats
           | None \<Rightarrow>
               if t \<in> fst ` set (term_to_definition (snd (import_deck js d)))
               then (case map_of (term_to_mistakes d) t of None \<Rightarrow> Some 0 | Some m \<Rightarrow> Some m)
               else None))"
proof -
  let ?keep = "\<lambda>(t, df). t \<notin> fst ` set js \<and> df \<notin> (\<lambda>(t, (df, _)). df) ` set js"
  let ?kept = "filter ?keep (term_to_definition d)"
  let ?swap = "map (\<lambda>(t, (df, _)). (df, t)) js"
  let ?d' = "snd (import_deck js d)"
  have keys0: "fst ` set (term_to_mistakes (imported_state js))
                = fst ` set (term_to_definition (imported_state js))"
    by (simp only: imported_state_keys [OF assms(3)])
  note lists = reinsert_old_lists [OF assms(1) assms(2) keys0]
  note keys = imported_state_keys [OF assms(3), unfolded imported_state_lists [OF assms(3)]]
  have d': "?d' = reinsert_old (term_to_definition d) (term_to_mistakes d) (imported_state js)"
    by (simp add: import_deck_def)
  have t2d: "term_to_definition ?d' = map (\<lambda>(t, (df, _)). (t, df)) js @ ?kept"
    using lists
    by (simp only: d' imported_state_lists [OF assms(3)] keys)
  have d2t: "definition_to_term ?d' = dict_comp ?swap @ map (\<lambda>(t, df). (df, t)) ?kept"
    using lists
    by (simp only: d' imported_state_lists [OF assms(3)] keys)
  have t2m: "term_to_mistakes ?d' =
      map (\<lambda>(t, (_, stats)). (t, stats)) js
      @ map (\<lambda>(t, df). (t, case map_of (term_to_mistakes d) t of None \<Rightarrow> 0 | Some m \<Rightarrow> m)) ?kept"
    using lists
    by (simp only: d' imported_state_lists [OF assms(3)] keys)
  have index: "map_of (definition_to_term ?d') df =
          (case map_of (rev ?swap) df of
             Some t \<Rightarrow> Some t
           | None \<Rightarrow> map_of (map (\<lambda>(t, df). (df, t)) ?kept) df)" for df
    by (simp only: d2t map_of_append map_add_def dict_comp_map_of)
  have turned: "definition_to_term ?d' = ?swap @ map (\<lambda>(t, df). (df, t)) ?kept"
    if "distinct (map (\<lambda>(t, (df, _)). df) js)"
  proof -
    have k: "map fst ?swap = map (\<lambda>(t, (df, _)). df) js"
      by (simp add: split_beta comp_def)
    have "distinct (map fst ?swap)" by (simp only: k that)
    then have "dict_comp ?swap = ?swap" by (rule dict_comp_id)
    then show ?thesis by (simp only: d2t)
  qed
  have look: "map_of (term_to_mistakes ?d') t =
          (case map_of js t of
             Some (df, stats) \<Rightarrow> Some stats
           | None \<Rightarrow>
               if t \<in> fst ` set (term_to_definition ?d')
               then (case map_of (term_to_mistakes d) t of None \<Rightarrow> Some 0 | Some m \<Rightarrow> Some m)
               else None)" for t
  proof (cases "map_of js t")
    case (Some p)
    then show ?thesis
      by (simp add: t2m map_add_def map_of_counts_of_snapshot split_beta split: option.splits)
  next
    case None
    then have notin: "t \<notin> fst ` set js" by (simp add: in_keys_iff)
    have "fst ` set (term_to_definition ?d') = fst ` set js \<union> fst ` set ?kept"
      unfolding t2d set_append image_Un by (simp only: keys(1))
    with notin have mem: "t \<in> fst ` set (term_to_definition ?d') \<longleftrightarrow> t \<in> fst ` set ?kept"
      by blast
    have "map_of (term_to_mistakes ?d') t =
        map_of (map (\<lambda>(t, df). (t, case map_of (term_to_mistakes d) t of None \<Rightarrow> 0 | Some m \<Rightarrow> m))
                  ?kept) t"
      using None
      by (simp add: t2m map_add_def map_of_counts_of_snapshot split: option.splits)
    also have "\<dots> = (if t \<in> fst ` set ?kept
        then Some (case map_of (term_to_mistakes d) t of None \<Rightarrow> 0 | Some m \<Rightarrow> m) else None)"
      by (rule map_of_key_function)
    also have "\<dots> = (if t \<in> fst ` set ?kept
        then (case map_of (term_to_mistakes d) t of None \<Rightarrow> Some 0 | Some m \<Rightarrow> Some m)
        else None)"
      by (simp split: option.splits)
    finally show ?thesis using None mem by simp
  qed
  have "fst (import_deck js d) = length js" by (simp add: import_deck_def)
  then show ?thesis using t2d index turned look by blast
qed

theorem import_deck_merge_witness:
  "distinct (map fst (term_to_definition ab_deck))
   \<and> distinct (map snd (term_to_definition ab_deck))
   \<and> distinct (map fst ac_snapshot)
   \<and> distinct (map (\<lambda>(t, (df, _)). df) ac_snapshot)
   \<and> fst (import_deck ac_snapshot ab_deck) = 2
   \<and> term_to_definition (snd (import_deck ac_snapshot ab_deck))
       = [(''A'', ''9''), (''C'', ''3''), (''B'', ''2'')]
   \<and> definition_to_term (snd (import_deck ac_snapshot ab_deck))
       = [(''9'', ''A''), (''3'', ''C''), (''2'', ''B'')]
   \<and> map_of (definition_to_term (snd (import_deck ac_snapshot ab_deck))) ''1'' = None
   \<and> map_of (term_to_mistakes (snd (import_deck ac_snapshot ab_deck))) ''A'' = Some 3
   \<and> map_of (term_to_mistakes (snd (import_deck ac_snapshot ab_deck))) ''C'' = Some 0
   \<and> map_of (term_to_mistakes (snd (import_deck ac_snapshot ab_deck))) ''B'' = Some 7"
proof -
  have h1: "distinct (map fst (term_to_definition ab_deck))"
    and h2: "distinct (map snd (term_to_definition ab_deck))"
    by (simp_all add: ab_deck_def)
  have h3: "distinct (map fst ac_snapshot)"
    and h4: "distinct (map (\<lambda>(t, (df, _)). df) ac_snapshot)"
    by (simp_all add: ac_snapshot_def)
  note r = import_deck_merge [OF h1 h2 h3]
  have n: "fst (import_deck ac_snapshot ab_deck) = 2"
    using r by (simp add: ac_snapshot_def)
  have t2d: "term_to_definition (snd (import_deck ac_snapshot ab_deck))
       = [(''A'', ''9''), (''C'', ''3''), (''B'', ''2'')]"
    using r by (simp add: ac_snapshot_def ab_deck_def)
  from r h4 have "definition_to_term (snd (import_deck ac_snapshot ab_deck)) =
            map (\<lambda>(t, (df, _)). (df, t)) ac_snapshot
            @ map (\<lambda>(t, df). (df, t))
                (filter (\<lambda>(t, df). t \<notin> fst ` set ac_snapshot
                                  \<and> df \<notin> (\<lambda>(t, (df, _)). df) ` set ac_snapshot)
                   (term_to_definition ab_deck))"
    by blast
  then have d2t: "definition_to_term (snd (import_deck ac_snapshot ab_deck))
       = [(''9'', ''A''), (''3'', ''C''), (''2'', ''B'')]"
    by (simp add: ac_snapshot_def ab_deck_def)
  from r have index: "map_of (definition_to_term (snd (import_deck ac_snapshot ab_deck))) df =
          (case map_of (rev (map (\<lambda>(t, (df, _)). (df, t)) ac_snapshot)) df of
             Some t \<Rightarrow> Some t
           | None \<Rightarrow>
               map_of (map (\<lambda>(t, df). (df, t))
                 (filter (\<lambda>(t, df). t \<notin> fst ` set ac_snapshot
                                   \<and> df \<notin> (\<lambda>(t, (df, _)). df) ` set ac_snapshot)
                    (term_to_definition ab_deck))) df)" for df
    by blast
  have gone: "map_of (definition_to_term (snd (import_deck ac_snapshot ab_deck))) ''1'' = None"
    by (subst index) (simp add: ac_snapshot_def ab_deck_def)
  from r have look: "map_of (term_to_mistakes (snd (import_deck ac_snapshot ab_deck))) t =
          (case map_of ac_snapshot t of
             Some (df, stats) \<Rightarrow> Some stats
           | None \<Rightarrow>
               if t \<in> fst ` set (term_to_definition (snd (import_deck ac_snapshot ab_deck)))
               then (case map_of (term_to_mistakes ab_deck) t of
                       None \<Rightarrow> Some 0 | Some m \<Rightarrow> Some m)
               else None)" for t
    by blast
  have a: "map_of (term_to_mistakes (snd (import_deck ac_snapshot ab_deck))) ''A'' = Some 3"
    by (subst look) (simp add: ac_snapshot_def)
  have c: "map_of (term_to_mistakes (snd (import_deck ac_snapshot ab_deck))) ''C'' = Some 0"
    by (subst look) (simp add: ac_snapshot_def)
  have b: "map_of (term_to_mistakes (snd (import_deck ac_snapshot ab_deck))) ''B'' = Some 7"
    by (subst look, subst t2d) (simp add: ac_snapshot_def ab_deck_def)
  show ?thesis using h1 h2 h3 h4 n t2d d2t gone a c b by simp
qed

text \<open>
  Claim C3 as stated, for every deck, fails on the deck that
  \<open>Deck({"A": ["x", 0], "B": ["x", 0]})\<close> builds. Importing \<open>{"C": ["y", 1]}\<close> into it
  re-inserts the old card \<open>A\<close>, and then skips the old card \<open>B\<close> because its definition \<open>x\<close>
  now collides with \<open>A\<close>: \<open>B\<close> is dropped although neither its term nor its definition
  occurs in the imported data.
\<close>

theorem import_into_twin_deck_counterexample:
  "term_to_definition twin_deck = [(''A'', ''x''), (''B'', ''x'')]
   \<and> term_to_mistakes twin_deck = [(''A'', 0), (''B'', 0)]
   \<and> import_deck [(''C'', (''y'', 1))] twin_deck =
       (1, \<lparr>term_to_definition = [(''C'', ''y''), (''A'', ''x'')],
            definition_to_term = [(''y'', ''C''), (''x'', ''A'')],
            term_to_mistakes = [(''C'', 1), (''A'', 0)]\<rparr>)"
  by (simp add: twin_deck_def import_deck_def imported_state_def dict_comp_def insert_card_def
      empty_deck_def)


text \<open>
  Claim C4, amended. On a deck that satisfies the invariants of the data model (every
  dictionary has each key once, the two indices are inverses of each other, the mistake
  counts have the terms of the term index as keys) and a card whose term is in the deck,
  \<open>ask\<close> returns \<open>(True, answer)\<close> and changes nothing when the answer equals the card's
  definition; otherwise it returns \<open>(False, r)\<close> and the count of the card's term goes from
  \<open>m\<close> to \<open>m + 1\<close>, where \<open>r\<close> is the term whose definition is exactly the answer when there
  is one and \<open>None\<close> when no term has that definition.
\<close>

theorem ask_result:
  assumes "deck_inv d" and "card_term c \<in> fst ` set (term_to_definition d)"
  shows "(answer = card_definition c \<longrightarrow> ask c answer d = (Inr (True, Some answer), d))
    \<and> (answer \<noteq> card_definition c \<longrightarrow>
         (\<exists>m r. map_of (term_to_mistakes d) (card_term c) = Some m
            \<and> fst (ask c answer d) = Inr (False, r)
            \<and> map_of (term_to_mistakes (snd (ask c answer d))) (card_term c) = Some (m + 1)
            \<and> (\<forall>t. r = Some t \<longleftrightarrow> map_of (term_to_definition d) t = Some answer)
            \<and> (r = None \<longleftrightarrow> (\<forall>t. map_of (term_to_definition d) t \<noteq> Some answer))))"
proof -
  from assms have "card_term c \<in> fst ` set (term_to_mistakes d)"
    by (simp add: deck_inv_counts)
  then obtain m where m: "map_of (term_to_mistakes d) (card_term c) = Some m"
    by (auto simp: in_keys_iff)
  have hint: "map_of (definition_to_term d) answer = Some t
                \<longleftrightarrow> map_of (term_to_definition d) t = Some answer" for t
    using deck_inv_lookup [OF assms(1)] by simp
  have none: "map_of (definition_to_term d) answer = None
                \<longleftrightarrow> (\<forall>t. map_of (term_to_definition d) t \<noteq> Some answer)"
    using hint by (metis option.exhaust option.distinct(1))
  show ?thesis
    using m hint none by (simp add: ask_def update_conv')
qed

theorem ask_result_witness:
  "deck_inv france_deck
   \<and> card_term (Flashcard ''France'' ''Paris'') \<in> fst ` set (term_to_definition france_deck)
   \<and> ask (Flashcard ''France'' ''Paris'') ''Paris'' france_deck
       = (Inr (True, Some ''Paris''), france_deck)
   \<and> fst (ask (Flashcard ''France'' ''Paris'') ''Berlin'' france_deck) = Inr (False, None)
   \<and> map_of (term_to_mistakes (snd (ask (Flashcard ''France'' ''Paris'') ''Berlin'' france_deck)))
        ''France'' = Some 1
   \<and> deck_inv ab_deck
   \<and> card_term (Flashcard ''A'' ''1'') \<in> fst ` set (term_to_definition ab_deck)
   \<and> fst (ask (Flashcard ''A'' ''1'') ''2'' ab_deck) = Inr (False, Some ''B'')
   \<and> map_of (term_to_mistakes (snd (ask (Flashcard ''A'' ''1'') ''2'' ab_deck))) ''A'' = Some 6"
proof -
  note inv = france_deck_inv
  have mem: "card_term (Flashcard ''France'' ''Paris'') \<in> fst ` set (term_to_definition france_deck)"
    by (simp add: france_deck_def)
  have no: "\<forall>t. map_of (term_to_definition france_deck) t \<noteq> Some ''Berlin''"
    by (simp add: france_deck_def)
  have m: "map_of (term_to_mistakes france_deck) ''France'' = Some 0"
    by (simp add: france_deck_def)
  have fr: "ask (Flashcard ''France'' ''Paris'') ''Paris'' france_deck
       = (Inr (True, Some ''Paris''), france_deck)
   \<and> fst (ask (Flashcard ''France'' ''Paris'') ''Berlin'' france_deck) = Inr (False, None)
   \<and> map_of (term_to_mistakes (snd (ask (Flashcard ''France'' ''Paris'') ''Berlin'' france_deck)))
        ''France'' = Some 1"
    using no m ask_result [OF inv mem, of "''Paris''"] ask_result [OF inv mem, of "''Berlin''"]
    by auto
  have mem2: "card_term (Flashcard ''A'' ''1'') \<in> fst ` set (term_to_definition ab_deck)"
    by (simp add: ab_deck_def)
  have hint: "map_of (term_to_definition ab_deck) ''B'' = Some ''2''"
    by (simp add: ab_deck_def)
  have m2: "map_of (term_to_mistakes ab_deck) ''A'' = Some 5"
    by (simp add: ab_deck_def)
  have ne: "''2'' \<noteq> card_definition (Flashcard ''A'' ''1'')" by simp
  from ask_result [OF ab_deck_inv mem2, of "''2''"] ne obtain m r
    where m: "map_of (term_to_mistakes ab_deck) (card_term (Flashcard ''A'' ''1'')) = Some m"
      and r: "fst (ask (Flashcard ''A'' ''1'') ''2'' ab_deck) = Inr (False, r)"
      and m': "map_of (term_to_mistakes (snd (ask (Flashcard ''A'' ''1'') ''2'' ab_deck)))
                 (card_term (Flashcard ''A'' ''1'')) = Some (m + 1)"
      and h: "\<forall>t. r = Some t \<longleftrightarrow> map_of (term_to_definition ab_deck) t = Some ''2''"
    by blast
  from h hint have "r = Some ''B''" by blast
  moreover from m m2 have "m = 5" by simp
  ultimately have ab: "fst (ask (Flashcard ''A'' ''1'') ''2'' ab_deck) = Inr (False, Some ''B'')
   \<and> map_of (term_to_mistakes (snd (ask (Flashcard ''A'' ''1'') ''2'' ab_deck))) ''A'' = Some 6"
    using r m' by simp
  show ?thesis using inv mem fr ab_deck_inv mem2 ab by simp
qed


text \<open>
  Claim C4 as stated, for every deck, fails on the deck that
  \<open>Deck({"A": ["x", 0], "B": ["x", 0], "D": ["w", 0]})\<close> builds once its card \<open>B\<close> has been
  removed: the inverse index held \<open>x\<close> for \<open>B\<close> only, so it has no entry for \<open>x\<close> any more.
  Asking the card \<open>D\<close> with the answer \<open>x\<close> returns \<open>(False, None)\<close>, although the term \<open>A\<close>
  has exactly the definition \<open>x\<close>.
\<close>

theorem ask_orphan_deck_counterexample:
  "term_to_definition orphan_deck = [(''A'', ''x''), (''D'', ''w'')]
   \<and> definition_to_term orphan_deck = [(''w'', ''D'')]
   \<and> term_to_mistakes orphan_deck = [(''A'', 0), (''D'', 0)]
   \<and> map_of (term_to_definition orphan_deck) ''A'' = Some ''x''
   \<and> fst (ask (Flashcard ''D'' ''w'') ''x'' orphan_deck) = Inr (False, None)
   \<and> term_to_mistakes (snd (ask (Flashcard ''D'' ''w'') ''x'' orphan_deck))
       = [(''A'', 0), (''D'', 1)]"
  by (simp add: orphan_deck_def remove_card_def import_deck_def imported_state_def dict_comp_def
      empty_deck_def ask_def)





text \<open>
  Claim C6. \<open>remove_card\<close> of a card whose term is not a key of the term index fails with
  \<open>NotFound\<close> and leaves all three dictionaries exactly as they were.
\<close>

theorem remove_card_absent:
  "card_term c \<notin> fst ` set (term_to_definition d) \<Longrightarrow> remove_card c d = (Inl NotFound, d)"
  by (simp add: remove_card_def)

theorem remove_card_absent_witness:
  "card_term (Flashcard ''Italy'' ''Rome'') \<notin> fst ` set (term_to_definition france_deck)
   \<and> remove_card (Flashcard ''Italy'' ''Rome'') france_deck = (Inl NotFound, france_deck)"
proof -
  have h: "card_term (Flashcard ''Italy'' ''Rome'') \<notin> fst ` set (term_to_definition france_deck)"
    by (simp add: france_deck_def)
  show ?thesis using h remove_card_absent [OF h] by simp
qed


text \<open>
  Claim C7. Let \<open>M\<close> be the largest mistake count of the deck, or 0 for a deck without
  cards. If \<open>M\<close> is 0, \<open>get_hardest_cards\<close> returns no term and 0; otherwise it returns \<open>M\<close>
  together with exactly the terms whose count is \<open>M\<close>.
\<close>

theorem get_hardest_cards_spec:
  "(let M = (if term_to_mistakes d = [] then 0 else Max (snd ` set (term_to_mistakes d)))
    in (M = 0 \<longrightarrow> get_hardest_cards d = ([], 0))
     \<and> (M \<noteq> 0 \<longrightarrow> snd (get_hardest_cards d) = M
          \<and> set (fst (get_hardest_cards d)) = {t. (t, M) \<in> set (term_to_mistakes d)}))"
proof (cases "term_to_mistakes d = []")
  case True
  then show ?thesis by (simp add: get_hardest_cards_def max_default_def)
next
  case False
  then have "max_default (map snd (term_to_mistakes d)) 0 = Max (snd ` set (term_to_mistakes d))"
    by (simp add: max_default_Max)
  then show ?thesis using False
    by (auto simp: get_hardest_cards_def Let_def image_iff)
qed

theorem get_hardest_cards_spec_witness:
  "get_hardest_cards france_deck = ([], 0)
   \<and> get_hardest_cards empty_deck = ([], 0)
   \<and> snd (get_hardest_cards ab_deck) = 7
   \<and> set (fst (get_hardest_cards ab_deck)) = {''B''}"
proof -
  have "{t. (t, 7::int) \<in> set (term_to_mistakes ab_deck)} = {''B''}"
    by (auto simp: ab_deck_def)
  then show ?thesis
    using get_hardest_cards_spec [of france_deck] get_hardest_cards_spec [of empty_deck]
      get_hardest_cards_spec [of ab_deck]
    by (simp add: france_deck_def empty_deck_def ab_deck_def)
qed


text \<open>
  Claim C8. On a deck that satisfies the invariants \<open>export_deck\<close> returns a snapshot and
  the size of the deck, and \<open>import_deck\<close> of that snapshot into the empty deck returns the
  same size and gives a deck with the same (term, definition, mistake count) triples; its
  term index is even the same list and its counts are the same mapping.
\<close>

theorem export_import_roundtrip:
  assumes "deck_inv d"
  shows "\<exists>js. export_deck d = Inr (js, len d)
    \<and> fst (import_deck js empty_deck) = len d
    \<and> triples (snd (import_deck js empty_deck)) = triples d
    \<and> term_to_definition (snd (import_deck js empty_deck)) = term_to_definition d
    \<and> map_of (term_to_mistakes (snd (import_deck js empty_deck))) = map_of (term_to_mistakes d)"
proof -
  define js where "js = map (\<lambda>(t, df). (t, (df, the (map_of (term_to_mistakes d) t))))
                          (term_to_definition d)"
  let ?d' = "snd (import_deck js empty_deck)"
  have sub: "fst ` set (term_to_definition d) \<subseteq> fst ` set (term_to_mistakes d)"
    using deck_inv_counts [OF assms] by blast
  have "export_items (term_to_definition d) (term_to_mistakes d) [] = Inr js"
    using export_items_all [OF deck_inv_distinct(1) [OF assms] _ sub, of "[]"]
    by (simp add: js_def)
  then have ex: "export_deck d = Inr (js, len d)" by (simp add: export_deck_def)
  have kjs: "map fst js = map fst (term_to_definition d)"
    by (simp add: js_def split_beta comp_def)
  have djs: "distinct (map fst js)"
    by (simp only: kjs deck_inv_distinct(1) [OF assms])
  have d': "?d' = imported_state js" by (simp add: import_deck_def empty_deck_def)
  have n: "fst (import_deck js empty_deck) = len d"
    by (simp add: import_deck_def len_def js_def)
  have t2d: "term_to_definition ?d' = term_to_definition d"
    by (simp add: d' imported_state_lists(1) [OF djs]) (simp add: js_def split_beta comp_def)
  have t2m: "term_to_mistakes ?d' =
      map (\<lambda>(t, df). (t, the (map_of (term_to_mistakes d) t))) (term_to_definition d)"
    by (simp add: d' imported_state_lists(2) [OF djs]) (simp add: js_def split_beta comp_def)
  have look: "map_of (term_to_mistakes ?d') t = map_of (term_to_mistakes d) t" for t
  proof (cases "t \<in> fst ` set (term_to_definition d)")
    case True
    with sub have "t \<in> fst ` set (term_to_mistakes d)" by blast
    then obtain m where "map_of (term_to_mistakes d) t = Some m"
      unfolding in_keys_iff by blast
    then show ?thesis using True by (simp only: t2m map_of_key_function) simp
  next
    case False
    then have "t \<notin> fst ` set (term_to_mistakes d)"
      using deck_inv_counts [OF assms] by simp
    then have "map_of (term_to_mistakes d) t = None" by (simp add: in_keys_iff)
    then show ?thesis using False by (simp only: t2m map_of_key_function) simp
  qed
  then have maps: "map_of (term_to_mistakes ?d') = map_of (term_to_mistakes d)" by (rule ext)
  have "triples ?d' = triples d"
    by (simp only: triples_def t2d maps)
  then show ?thesis using ex n t2d maps by blast
qed

theorem export_import_roundtrip_witness:
  "deck_inv ab_deck
   \<and> (\<exists>js. export_deck ab_deck = Inr (js, 2)
        \<and> fst (import_deck js empty_deck) = 2
        \<and> triples (snd (import_deck js empty_deck)) = {(''A'', ''1'', 5), (''B'', ''2'', 7)}
        \<and> term_to_definition (snd (import_deck js empty_deck)) = [(''A'', ''1''), (''B'', ''2'')])"
proof -
  note inv = ab_deck_inv
  have l: "len ab_deck = 2" by (simp add: len_def ab_deck_def)
  have tr: "triples ab_deck = {(''A'', ''1'', 5), (''B'', ''2'', 7)}"
    by (simp add: triples_def ab_deck_def map_filter_simps)
  have t2d: "term_to_definition ab_deck = [(''A'', ''1''), (''B'', ''2'')]"
    by (simp add: ab_deck_def)
  show ?thesis using inv export_import_roundtrip [OF inv] unfolding l tr t2d by blast
qed


text \<open>
  Claim C9. \<open>reset_stats\<close> leaves the term index and the inverse index as they were, gives
  exactly the terms of the term index a mistake count, each of them 0, and
  \<open>get_hardest_cards\<close> then returns no term and 0, whatever the counts were before.
\<close>

theorem reset_stats_spec:
  "term_to_definition (reset_stats d) = term_to_definition d
   \<and> definition_to_term (reset_stats d) = definition_to_term d
   \<and> fst ` set (term_to_mistakes (reset_stats d)) = fst ` set (term_to_definition d)
   \<and> (\<forall>t \<in> fst ` set (term_to_definition d).
        map_of (term_to_mistakes (reset_stats d)) t = Some 0)
   \<and> get_hardest_cards (reset_stats d) = ([], 0)"
proof -
  let ?ks = "map fst (term_to_definition d)"
  have keys: "fst ` set (dict_fromkeys ?ks (0::int)) = fst ` set (term_to_definition d)"
    by (simp add: dict_fromkeys_def dict_comp_keys image_image)
  have vals: "\<forall>p \<in> set (dict_fromkeys ?ks (0::int)). snd p = 0"
    using set_dict_comp_subset [of "map (\<lambda>k. (k, 0::int)) ?ks"]
    by (auto simp: dict_fromkeys_def)
  have look: "map_of (dict_fromkeys ?ks (0::int)) t = Some 0"
    if "t \<in> fst ` set (term_to_definition d)" for t
  proof -
    from that keys have "t \<in> fst ` set (dict_fromkeys ?ks (0::int))" by simp
    then obtain m where "map_of (dict_fromkeys ?ks (0::int)) t = Some m"
      unfolding in_keys_iff by blast
    moreover from this have "(t, m) \<in> set (dict_fromkeys ?ks (0::int))" by (rule map_of_SomeD)
    ultimately show ?thesis using vals by auto
  qed
  have "max_default (map snd (dict_fromkeys ?ks (0::int))) 0 = 0"
    using vals by (intro max_default_zeros) auto
  then have "get_hardest_cards (reset_stats d) = ([], 0)"
    by (simp add: get_hardest_cards_def reset_stats_def)
  then show ?thesis using keys look by (simp add: reset_stats_def)
qed

theorem reset_stats_spec_witness:
  "term_to_definition (reset_stats ab_deck) = [(''A'', ''1''), (''B'', ''2'')]
   \<and> definition_to_term (reset_stats ab_deck) = [(''1'', ''A''), (''2'', ''B'')]
   \<and> map_of (term_to_mistakes (reset_stats ab_deck)) ''A'' = Some 0
   \<and> map_of (term_to_mistakes (reset_stats ab_deck)) ''B'' = Some 0
   \<and> get_hardest_cards ab_deck \<noteq> ([], 0)
   \<and> get_hardest_cards (reset_stats ab_deck) = ([], 0)"
proof -
  have "get_hardest_cards ab_deck = ([''B''], 7)"
    by (simp add: get_hardest_cards_def max_default_def ab_deck_def)
  then show ?thesis using reset_stats_spec [of ab_deck]
    by (simp add: ab_deck_def)
qed


text \<open>
  Claim C10. \<open>ask\<close> leaves the term index and the inverse index as they were, keeps the
  keys of the mistake counts and the count of every term other than the card's, and when
  the answer equals the card's definition it returns \<open>(True, answer)\<close> with the whole deck
  unchanged. This holds for every deck, card and answer, so in particular for a deck that
  satisfies the invariants and a card whose term is in it.
\<close>

theorem ask_frame:
  "term_to_definition (snd (ask c answer d)) = term_to_definition d
   \<and> definition_to_term (snd (ask c answer d)) = definition_to_term d
   \<and> map fst (term_to_mistakes (snd (ask c answer d))) = map fst (term_to_mistakes d)
   \<and> (\<forall>t. t \<noteq> card_term c \<longrightarrow>
         map_of (term_to_mistakes (snd (ask c answer d))) t = map_of (term_to_mistakes d) t)
   \<and> (answer = card_definition c \<longrightarrow> ask c answer d = (Inr (True, Some answer), d))"
  by (auto simp: ask_def update_conv' update_keys in_keys_iff split: option.splits)

theorem ask_frame_witness:
  "ask (Flashcard ''France'' ''Paris'') ''Paris'' france_deck
     = (Inr (True, Some ''Paris''), france_deck)
   \<and> term_to_definition (snd (ask (Flashcard ''A'' ''1'') ''2'' ab_deck))
       = [(''A'', ''1''), (''B'', ''2'')]
   \<and> definition_to_term (snd (ask (Flashcard ''A'' ''1'') ''2'' ab_deck))
       = [(''1'', ''A''), (''2'', ''B'')]
   \<and> map fst (term_to_mistakes (snd (ask (Flashcard ''A'' ''1'') ''2'' ab_deck)))
       = [''A'', ''B'']
   \<and> map_of (term_to_mistakes (snd (ask (Flashcard ''A'' ''1'') ''2'' ab_deck))) ''B''
       = Some 7"
proof -
  have same: "ask (Flashcard ''France'' ''Paris'') ''Paris'' france_deck
     = (Inr (True, Some ''Paris''), france_deck)"
    using ask_frame [of "Flashcard ''France'' ''Paris''" "''Paris''" france_deck] by simp
  note r = ask_frame [of "Flashcard ''A'' ''1''" "''2''" ab_deck]
  have other: "map_of (term_to_mistakes (snd (ask (Flashcard ''A'' ''1'') ''2'' ab_deck))) ''B''
       = map_of (term_to_mistakes ab_deck) ''B''"
    using r by simp
  show ?thesis using same r other by (simp add: ab_deck_def)
qed

end
